theory Spec2Isabelle
  imports Main "HOL-Library.Sublist"
begin

section \<open>JavaScript strings, numbers and property lookup\<close>

text \<open>
  A JavaScript string is a sequence of UTF-16 code units. A \<^typ>\<open>char\<close> stands for one
  code unit in the range 0..255 (ASCII and Latin-1), which is closed under
  \<^verbatim>\<open>String.prototype.toLowerCase\<close>: the letters A..Z and the Latin-1 capitals
  U+00C0..U+00DE (without the multiplication sign U+00D7) move up by 32, every other
  code unit of the range stays.
\<close>

definition toLowerChar :: "char \<Rightarrow> char" where
  "toLowerChar c =
     (let n = (of_char c :: nat)
      in if (65 \<le> n \<and> n \<le> 90) \<or> (192 \<le> n \<and> n \<le> 222 \<and> n \<noteq> 215)
         then char_of (n + 32) else c)"

definition toLowerCase :: "string \<Rightarrow> string" where
  "toLowerCase s = map toLowerChar s"

text \<open>\<^verbatim>\<open>s.includes(sub)\<close>: \<^verbatim>\<open>sub\<close> occurs in \<^verbatim>\<open>s\<close> as a contiguous substring.\<close>

fun str_includes :: "string \<Rightarrow> string \<Rightarrow> bool" where
  "str_includes [] sub = (sub = [])"
| "str_includes (c # cs) sub = (prefix sub (c # cs) \<or> str_includes cs sub)"

text \<open>
  Template literals render a number with \<^verbatim>\<open>Number::toString\<close>; the numbers rendered by
  this program are node counts and list lengths, non-negative integers far below
  \<^verbatim>\<open>1e21\<close>, whose rendering is the decimal numeral without leading zeros.
\<close>

definition digit_char :: "nat \<Rightarrow> char" where
  "digit_char d = char_of (48 + d)"

fun show_nat :: "nat \<Rightarrow> string" where
  "show_nat n = (if n < 10 then [digit_char n] else show_nat (n div 10) @ [digit_char (n mod 10)])"

declare show_nat.simps [simp del]

text \<open>
  The values a property read of this program can yield: a string, \<^verbatim>\<open>undefined\<close>, or a
  function or object of the runtime that is inherited from \<^verbatim>\<open>Object.prototype\<close>
  (named by the property that reaches it).
\<close>

datatype jsval = Undefined | Str string | Builtin string

fun truthy :: "jsval \<Rightarrow> bool" where
  "truthy Undefined = False"
| "truthy (Str s) = (s \<noteq> [])"
| "truthy (Builtin b) = True"

text \<open>\<^verbatim>\<open>a || b\<close>\<close>

definition js_or :: "jsval \<Rightarrow> jsval \<Rightarrow> jsval" where
  "js_or a b = (if truthy a then a else b)"

text \<open>
  The property names every object literal inherits from \<^verbatim>\<open>Object.prototype\<close>
  (ECMAScript, with the legacy accessors of its Annex B).
\<close>

definition object_prototype_keys :: "string list" where
  "object_prototype_keys =
     [''constructor'', ''__defineGetter__'', ''__defineSetter__'', ''hasOwnProperty'',
      ''__lookupGetter__'', ''__lookupSetter__'', ''isPrototypeOf'', ''propertyIsEnumerable'',
      ''toString'', ''valueOf'', ''__proto__'', ''toLocaleString'']"

text \<open>
  \<^verbatim>\<open>obj[key]\<close> on an object literal whose own properties are strings: the own property
  if there is one, else the inherited one, else \<^verbatim>\<open>undefined\<close>.
\<close>

definition get_property :: "(string \<times> string) list \<Rightarrow> string \<Rightarrow> jsval" where
  "get_property obj key =
     (case map_of obj key of
        Some v \<Rightarrow> Str v
      | None \<Rightarrow> if key \<in> set object_prototype_keys then Builtin key else Undefined)"

section \<open>Type mapping tables (generate-workflow.ts)\<close>

definition triggerMap :: "(string \<times> string) list" where
  "triggerMap =
     [(''webhook'', ''n8n-nodes-base.webhook''),
      (''schedule'', ''n8n-nodes-base.scheduleTrigger''),
      (''manual'', ''n8n-nodes-base.manualTrigger''),
      (''chat'', ''@n8n/n8n-nodes-langchain.chatTrigger'')]"

definition getTriggerNodeType :: "string \<Rightarrow> jsval" where
  "getTriggerNodeType trigger =
     js_or (get_property triggerMap trigger) (Str ''n8n-nodes-base.manualTrigger'')"

definition integrationMap :: "(string \<times> string) list" where
  "integrationMap =
     [(''slack'', ''n8n-nodes-base.slack''),
      (''telegram'', ''n8n-nodes-base.telegram''),
      (''email'', ''n8n-nodes-base.emailSend''),
      (''openai'', ''@n8n/n8n-nodes-langchain.lmChatOpenAi''),
      (''supabase'', ''@n8n/n8n-nodes-langchain.supabaseVectorStore''),
      (''http'', ''n8n-nodes-base.httpRequest'')]"

definition getIntegrationNodeType :: "string \<Rightarrow> jsval" where
  "getIntegrationNodeType integration =
     js_or (get_property integrationMap (toLowerCase integration))
       (Str ''n8n-nodes-base.httpRequest'')"

section \<open>Node graph builder (generate-workflow.ts)\<close>

record node =
  n_id :: string
  n_type :: jsval
  n_name :: string
  n_parameters :: "(string \<times> string) list"
  n_position :: "nat \<times> nat"

record edge =
  e_node :: string
  e_type :: string
  e_index :: nat

record connection =
  main :: "edge list list"

record suggested_node =
  s_type :: string
  s_name :: string
  s_description :: string
  s_parameters :: "(string \<times> string) list option"

record rag_context =
  patterns :: "string list option"
  suggested_nodes :: "suggested_node list option"

record requirements =
  trigger :: "string option"
  integrations :: "string list option"
  complexity :: "string option"

record workflow =
  nodes :: "node list"
  connections :: "(string \<times> connection) list"
  settings :: "(string \<times> string) list"

text \<open>
  \<^verbatim>\<open>obj[key] = value\<close> on an object whose keys are not array indices: an existing
  property keeps its place and takes the new value, a new one goes last.
\<close>

fun set_property :: "string \<Rightarrow> 'v \<Rightarrow> (string \<times> 'v) list \<Rightarrow> (string \<times> 'v) list" where
  "set_property k v [] = [(k, v)]"
| "set_property k v ((k', v') # kvs) =
     (if k = k' then (k, v) # kvs else (k', v') # set_property k v kvs)"

definition single_edge :: "string \<Rightarrow> connection" where
  "single_edge target = \<lparr>main = [[\<lparr>e_node = target, e_type = ''main'', e_index = 0\<rparr>]]\<rparr>"

definition inferTrigger :: "rag_context \<Rightarrow> string" where
  "inferTrigger context =
     (let pats = (case patterns context of None \<Rightarrow> [] | Some ps \<Rightarrow> ps)
      in if ''microservice'' \<in> set pats then ''webhook''
         else if ''scheduled'' \<in> set pats then ''schedule''
         else ''manual'')"

text \<open>The variables the two \<^verbatim>\<open>forEach\<close> callbacks of the builder share and update.\<close>

record builder =
  b_nodes :: "node list"
  b_connections :: "(string \<times> connection) list"
  previousNodeId :: string
  nodeCount :: nat

definition link_node :: "node \<Rightarrow> nat \<Rightarrow> builder \<Rightarrow> builder" where
  "link_node nd cnt b =
     \<lparr>b_nodes = b_nodes b @ [nd],
      b_connections = set_property (previousNodeId b) (single_edge (n_id nd)) (b_connections b),
      previousNodeId = n_id nd,
      nodeCount = cnt\<rparr>"

definition add_agent :: "builder \<Rightarrow> builder" where
  "add_agent b =
     (let cnt = nodeCount b + 1;
          agentId = ''agent_'' @ show_nat cnt
      in link_node \<lparr>n_id = agentId, n_type = Str ''@n8n/n8n-nodes-langchain.agent'',
                     n_name = ''AI Agent'', n_parameters = [], n_position = (450, 300)\<rparr> cnt b)"

definition add_integration :: "string \<Rightarrow> builder \<Rightarrow> builder" where
  "add_integration integration b =
     (let cnt = nodeCount b + 1;
          nodeId = ''node_'' @ show_nat cnt;
          nodeType = getIntegrationNodeType integration
      in link_node \<lparr>n_id = nodeId, n_type = nodeType,
                     n_name = integration @ '' Integration'', n_parameters = [],
                     n_position = (250 + cnt * 200, 300)\<rparr> cnt b)"

definition add_suggested :: "suggested_node \<Rightarrow> builder \<Rightarrow> builder" where
  "add_suggested suggested b =
     (let cnt = nodeCount b + 1;
          nodeId = ''node_'' @ show_nat cnt
      in link_node \<lparr>n_id = nodeId, n_type = Str (s_type suggested),
                     n_name = s_name suggested,
                     n_parameters = (case s_parameters suggested of None \<Rightarrow> [] | Some p \<Rightarrow> p),
                     n_position = (250 + cnt * 200, 300)\<rparr> cnt b)"

definition wants_agent :: "string \<Rightarrow> rag_context \<Rightarrow> bool" where
  "wants_agent description context =
     ((case patterns context of None \<Rightarrow> False | Some ps \<Rightarrow> ''ai_agent'' \<in> set ps)
      \<or> str_includes (toLowerCase description) ''ai''
      \<or> str_includes (toLowerCase description) ''chat'')"

definition generateWorkflowStructure :: "string \<Rightarrow> requirements \<Rightarrow> rag_context \<Rightarrow> workflow" where
  "generateWorkflowStructure description reqs context =
     (let triggerType = (case trigger reqs of
                           None \<Rightarrow> inferTrigger context
                         | Some t \<Rightarrow> if t = [] then inferTrigger context else t);
          triggerId = ''trigger_1'';
          b0 = \<lparr>b_nodes = [\<lparr>n_id = triggerId, n_type = getTriggerNodeType triggerType,
                             n_name = triggerType @ '' Trigger'', n_parameters = [],
                             n_position = (250, 300)\<rparr>],
                b_connections = [], previousNodeId = triggerId, nodeCount = 1\<rparr>;
          b1 = (if wants_agent description context then add_agent b0 else b0);
          b2 = (case integrations reqs of
                  None \<Rightarrow> b1
                | Some is \<Rightarrow> fold add_integration is b1);
          suggestedNodes = (case suggested_nodes context of None \<Rightarrow> [] | Some ns \<Rightarrow> take 3 ns);
          b3 = fold add_suggested suggestedNodes b2
      in \<lparr>nodes = b_nodes b3, connections = b_connections b3,
           settings = [(''executionOrder'', ''v1'')]\<rparr>)"

section \<open>Implementation steps of the generate-workflow handler (generate-workflow.ts)\<close>

datatype error = TypeError

text \<open>
  \<^verbatim>\<open>n.type.includes(sub)\<close>: the substring test when the type is a string. Neither
  \<^verbatim>\<open>undefined\<close> nor the functions and objects inherited from \<^verbatim>\<open>Object.prototype\<close>
  have a callable \<^verbatim>\<open>includes\<close>, so the call raises a TypeError there.
\<close>

fun type_includes :: "jsval \<Rightarrow> string \<Rightarrow> error + bool" where
  "type_includes (Str s) sub = Inr (str_includes s sub)"
| "type_includes Undefined sub = Inl TypeError"
| "type_includes (Builtin b) sub = Inl TypeError"

text \<open>
  \<^verbatim>\<open>Array.prototype.some\<close>: the elements in order, stopping at the first one the
  callback accepts; a raise of the callback leaves the loop.
\<close>

fun js_some :: "('a \<Rightarrow> error + bool) \<Rightarrow> 'a list \<Rightarrow> error + bool" where
  "js_some p [] = Inr False"
| "js_some p (x # xs) =
     (case p x of
        Inl e \<Rightarrow> Inl e
      | Inr found \<Rightarrow> if found then Inr True else js_some p xs)"

definition handler_generateImplementationSteps :: "workflow \<Rightarrow> error + string list" where
  "handler_generateImplementationSteps structure =
     (case js_some (\<lambda>n. type_includes (n_type n) ''agent'') (nodes structure) of
        Inl e \<Rightarrow> Inl e
      | Inr hasAgent \<Rightarrow>
          (let steps0 = [''1. Create a new workflow in n8n'',
                         ''2. Add the trigger node and configure its settings''];
               steps1 = (if hasAgent
                         then steps0 @ [''3. Configure the AI agent with appropriate model and tools'']
                         else steps0);
               steps2 = steps1 @ [show_nat (length steps1 + 1)
                                    @ ''. Connect all nodes as shown in the structure''];
               steps3 = steps2 @ [show_nat (length steps2 + 1)
                                    @ ''. Configure credentials for each integration''];
               steps4 = steps3 @ [show_nat (length steps3 + 1)
                                    @ ''. Test the workflow with sample data''];
               steps5 = steps4 @ [show_nat (length steps4 + 1)
                                    @ ''. Add error handling and logging nodes'']
           in Inr steps5))"

section \<open>Implementation steps of the complete-workflow generator\<close>

text \<open>\<^verbatim>\<open>xs.forEach(x => steps.push(g(x)))\<close>\<close>

definition push_each :: "('a \<Rightarrow> string) \<Rightarrow> 'a list \<Rightarrow> string list \<Rightarrow> string list" where
  "push_each g xs steps = fold (\<lambda>x acc. acc @ [g x]) xs steps"

definition generateImplementationSteps :: "string list \<Rightarrow> string \<Rightarrow> bool \<Rightarrow> string list" where
  "generateImplementationSteps features outputFormat useTaskManager =
     (if outputFormat = ''microservices'' then
        (let s1 = [''Create main orchestrator workflow with webhook trigger'',
                   ''Design separate microservice workflows for each feature''];
             s2 = push_each (\<lambda>f. ''Implement '' @ f @ '' microservice with webhook trigger and response'')
                    features s1;
             s3 = (if useTaskManager
                   then s2 @ [''Integrate Task Manager for workflow orchestration'',
                              ''Add task creation and monitoring capabilities'']
                   else s2)
         in s3 @ [''Connect microservices via HTTP requests'',
                  ''Add centralized logging and error handling''])
      else
        (let s1 = [''Create main workflow with appropriate trigger''];
             s2 = push_each (\<lambda>f. ''Add '' @ f @ '' integration nodes and configuration'') features s1
         in s2 @ [''Implement error handling and logging'',
                  ''Add documentation via Sticky Notes'',
                  ''Test all connections and data flow'']))"

section \<open>Insight synthesizer (get-insights handler)\<close>

record workflow_match =
  wm_name :: string

record node_suggestion =
  ns_type :: "string option"
  ns_name :: string

record insights =
  query :: string
  workflow_matches :: "workflow_match list option"
  node_suggestions :: "node_suggestion list option"
  recommended_patterns :: "string list option"
  complexity_estimate :: "string option"

text \<open>The double quote character.\<close>

definition dquote :: string where
  "dquote = [CHR 0x22]"

text \<open>\<^verbatim>\<open>xs || []\<close> on an optional array.\<close>

definition or_empty :: "'a list option \<Rightarrow> 'a list" where
  "or_empty xs = (case xs of None \<Rightarrow> [] | Some ys \<Rightarrow> ys)"

text \<open>\<^verbatim>\<open>insights.workflow_matches?.[0]\<close>\<close>

definition topWorkflow :: "insights \<Rightarrow> workflow_match option" where
  "topWorkflow i =
     (case workflow_matches i of
        None \<Rightarrow> None
      | Some [] \<Rightarrow> None
      | Some (w # ws) \<Rightarrow> Some w)"

definition suggestApproach :: "insights \<Rightarrow> string" where
  "suggestApproach i =
     (let pats = or_empty (recommended_patterns i)
      in if ''microservice'' \<in> set pats then
           ''Use a microservice pattern with webhook triggers for modular design.''
         else if ''ai_agent'' \<in> set pats then
           ''Implement an AI agent with tool integration for intelligent automation.''
         else if ''rag'' \<in> set pats then
           ''Use RAG pattern for context-aware responses with vector database integration.''
         else (case topWorkflow i of
                 Some w \<Rightarrow> ''Consider adapting the '' @ dquote @ wm_name w @ dquote
                           @ '' workflow as a starting point.''
               | None \<Rightarrow> ''Start with a simple webhook trigger and build incrementally.''))"

text \<open>\<^verbatim>\<open>n.type?.includes(sub)\<close> as a condition: false when the type is absent.\<close>

definition opt_includes :: "string option \<Rightarrow> string \<Rightarrow> bool" where
  "opt_includes t sub = (case t of None \<Rightarrow> False | Some s \<Rightarrow> str_includes s sub)"

definition hasTrigger :: "node_suggestion list \<Rightarrow> bool" where
  "hasTrigger ns =
     list_ex (\<lambda>n. opt_includes (ns_type n) ''trigger'' \<or> opt_includes (ns_type n) ''webhook'') ns"

definition hasAI :: "node_suggestion list \<Rightarrow> bool" where
  "hasAI ns =
     list_ex (\<lambda>n. opt_includes (ns_type n) ''ai'' \<or> opt_includes (ns_type n) ''agent''
                  \<or> opt_includes (ns_type n) ''openai'') ns"

definition hasDatabase :: "node_suggestion list \<Rightarrow> bool" where
  "hasDatabase ns =
     list_ex (\<lambda>n. opt_includes (ns_type n) ''supabase'' \<or> opt_includes (ns_type n) ''postgres'') ns"

definition hasMessaging :: "node_suggestion list \<Rightarrow> bool" where
  "hasMessaging ns =
     list_ex (\<lambda>n. opt_includes (ns_type n) ''telegram'' \<or> opt_includes (ns_type n) ''slack''
                  \<or> opt_includes (ns_type n) ''email'') ns"

definition identifyKeyComponents :: "insights \<Rightarrow> string list" where
  "identifyKeyComponents i =
     (let ns = or_empty (node_suggestions i);
          c1 = (if \<not> hasTrigger ns then [''Webhook or manual trigger''] else []);
          c2 = (if hasAI ns then c1 @ [''AI/LLM integration''] else c1);
          c3 = (if hasDatabase ns then c2 @ [''Database storage''] else c2);
          c4 = (if hasMessaging ns then c3 @ [''Messaging integration''] else c3)
      in push_each (\<lambda>n. ns_name n @ '' node'') (take 3 ns) c4)"

definition getConsiderations :: "insights \<Rightarrow> string list" where
  "getConsiderations i =
     (let c1 = (if complexity_estimate i = Some ''advanced''
                then [''This is a complex workflow that may require multiple sub-workflows'']
                else []);
          c2 = (if (case recommended_patterns i of None \<Rightarrow> False | Some ps \<Rightarrow> ''ai_agent'' \<in> set ps)
                then c1 @ [''Configure AI agent with appropriate tools and memory management'']
                else c1);
          c3 = (if (case node_suggestions i of
                      None \<Rightarrow> False
                    | Some ns \<Rightarrow> list_ex (\<lambda>n. opt_includes (ns_type n) ''database'') ns)
                then c2 @ [''Set up database credentials and schema before implementation'']
                else c2)
      in c3 @ [''Consider error handling and retry logic for reliability'',
               ''Implement logging for debugging and monitoring''])"

section \<open>The graph of a workflow\<close>

text \<open>
  The edges a connection map stands for, as pairs of a source id and a target id: one
  pair for every edge object in every output list of every source.
\<close>

definition edges_of :: "(string \<times> connection) list \<Rightarrow> (string \<times> string) list" where
  "edges_of cs = concat (map (\<lambda>(src, c). map (\<lambda>e. (src, e_node e)) (concat (main c))) cs)"

text \<open>The value of a decimal numeral, to tell rendered numbers apart.\<close>

definition read_nat :: "string \<Rightarrow> nat" where
  "read_nat s = foldl (\<lambda>a c. 10 * a + (of_char c - 48)) 0 s"

text \<open>
  What holds of the builder's variables between any two of its steps: the ids placed so
  far start with the trigger, are distinct and carry counters up to \<open>nodeCount\<close>, the
  last one is \<open>previousNodeId\<close>, and the connection map links each id to the next.
\<close>

definition chain_inv :: "builder \<Rightarrow> bool" where
  "chain_inv b =
     (let ids = map n_id (b_nodes b)
      in ids \<noteq> [] \<and> hd ids = ''trigger_1'' \<and> previousNodeId b = last ids \<and> distinct ids
         \<and> b_connections b = map (\<lambda>(s, t). (s, single_edge t)) (zip ids (tl ids))
         \<and> set ids \<subseteq> {''trigger_1''} \<union> (\<lambda>k. ''agent_'' @ show_nat k) ` {..nodeCount b}
                        \<union> (\<lambda>k. ''node_'' @ show_nat k) ` {..nodeCount b})"

section \<open>Example inputs\<close>

definition insights_advanced :: insights where
  "insights_advanced =
     \<lparr>query = ''sync orders'',
      workflow_matches = Some [\<lparr>wm_name = ''Order Sync''\<rparr>],
      node_suggestions =
        Some [\<lparr>ns_type = Some ''n8n-nodes-base.httpRequest'', ns_name = ''HTTP Request''\<rparr>,
              \<lparr>ns_type = None, ns_name = ''Set''\<rparr>],
      recommended_patterns = Some [''rag''],
      complexity_estimate = Some ''advanced''\<rparr>"

definition insights_all :: insights where
  "insights_all =
     \<lparr>query = ''support bot'',
      workflow_matches = Some [\<lparr>wm_name = ''Helpdesk''\<rparr>, \<lparr>wm_name = ''FAQ''\<rparr>],
      node_suggestions = None,
      recommended_patterns = Some [''rag'', ''ai_agent'', ''microservice''],
      complexity_estimate = None\<rparr>"

definition wf_with_agent :: workflow where
  "wf_with_agent =
     \<lparr>nodes =
        [\<lparr>n_id = ''trigger_1'', n_type = Str ''n8n-nodes-base.manualTrigger'',
          n_name = ''manual Trigger'', n_parameters = [], n_position = (250, 300)\<rparr>,
         \<lparr>n_id = ''agent_2'', n_type = Str ''@n8n/n8n-nodes-langchain.agent'',
          n_name = ''AI Agent'', n_parameters = [], n_position = (450, 300)\<rparr>],
      connections = [(''trigger_1'', single_edge ''agent_2'')],
      settings = [(''executionOrder'', ''v1'')]\<rparr>"

definition wf_plain :: workflow where
  "wf_plain =
     \<lparr>nodes =
        [\<lparr>n_id = ''trigger_1'', n_type = Str ''n8n-nodes-base.webhook'',
          n_name = ''webhook Trigger'', n_parameters = [], n_position = (250, 300)\<rparr>,
         \<lparr>n_id = ''node_2'', n_type = Str ''n8n-nodes-base.slack'',
          n_name = ''slack Integration'', n_parameters = [], n_position = (650, 300)\<rparr>],
      connections = [(''trigger_1'', single_edge ''node_2'')],
      settings = [(''executionOrder'', ''v1'')]\<rparr>"

definition reqs_two :: requirements where
  "reqs_two = \<lparr>trigger = Some ''schedule'', integrations = Some [''Slack'', ''crm''],
                complexity = None\<rparr>"

definition context_four :: rag_context where
  "context_four =
     \<lparr>patterns = Some [''scheduled''],
      suggested_nodes =
        Some [\<lparr>s_type = ''n8n-nodes-base.set'', s_name = ''Set'', s_description = ''set fields'',
               s_parameters = None\<rparr>,
              \<lparr>s_type = ''n8n-nodes-base.if'', s_name = ''If'', s_description = ''branch'',
               s_parameters = Some [(''mode'', ''all'')]\<rparr>,
              \<lparr>s_type = ''n8n-nodes-base.merge'', s_name = ''Merge'', s_description = ''merge'',
               s_parameters = None\<rparr>,
              \<lparr>s_type = ''n8n-nodes-base.wait'', s_name = ''Wait'', s_description = ''wait'',
               s_parameters = None\<rparr>]\<rparr>"

section \<open>Basic facts\<close>

lemma push_each_map: "push_each g xs steps = steps @ map g xs"
  unfolding push_each_def by (induction xs arbitrary: steps) simp_all

section \<open>The graph builder on the example scenario\<close>

text \<open>
  C1. For the description "AI chatbot with memory", the requirements with the single
  integration "slack" and the context with the single pattern "ai_agent", the builder
  returns the three nodes trigger_1 (manual trigger), agent_2 (AI agent) and node_3
  (slack integration) in this order, and the connection map links trigger_1 to agent_2
  and agent_2 to node_3.
\<close>

theorem generateWorkflowStructure_example:
  "generateWorkflowStructure ''AI chatbot with memory''
     \<lparr>trigger = None, integrations = Some [''slack''], complexity = None\<rparr>
     \<lparr>patterns = Some [''ai_agent''], suggested_nodes = None\<rparr>
   = \<lparr>nodes =
        [\<lparr>n_id = ''trigger_1'', n_type = Str ''n8n-nodes-base.manualTrigger'',
          n_name = ''manual Trigger'', n_parameters = [], n_position = (250, 300)\<rparr>,
         \<lparr>n_id = ''agent_2'', n_type = Str ''@n8n/n8n-nodes-langchain.agent'',
          n_name = ''AI Agent'', n_parameters = [], n_position = (450, 300)\<rparr>,
         \<lparr>n_id = ''node_3'', n_type = Str ''n8n-nodes-base.slack'',
          n_name = ''slack Integration'', n_parameters = [], n_position = (850, 300)\<rparr>],
      connections =
        [(''trigger_1'', \<lparr>main = [[\<lparr>e_node = ''agent_2'', e_type = ''main'', e_index = 0\<rparr>]]\<rparr>),
         (''agent_2'', \<lparr>main = [[\<lparr>e_node = ''node_3'', e_type = ''main'', e_index = 0\<rparr>]]\<rparr>)],
      settings = [(''executionOrder'', ''v1'')]\<rparr>"
  by code_simp

section \<open>Implementation steps of the complete-workflow generator\<close>

lemma steps_microservices_general:
  "generateImplementationSteps features ''microservices'' useTaskManager =
     [''Create main orchestrator workflow with webhook trigger'',
      ''Design separate microservice workflows for each feature'']
     @ map (\<lambda>f. ''Implement '' @ f @ '' microservice with webhook trigger and response'') features
     @ (if useTaskManager
        then [''Integrate Task Manager for workflow orchestration'',
              ''Add task creation and monitoring capabilities'']
        else [])
     @ [''Connect microservices via HTTP requests'',
        ''Add centralized logging and error handling'']"
  by (simp add: generateImplementationSteps_def push_each_map)

lemma steps_single_general:
  "outputFormat \<noteq> ''microservices'' \<Longrightarrow>
   generateImplementationSteps features outputFormat useTaskManager =
     ''Create main workflow with appropriate trigger''
     # map (\<lambda>f. ''Add '' @ f @ '' integration nodes and configuration'') features
     @ [''Implement error handling and logging'',
        ''Add documentation via Sticky Notes'',
        ''Test all connections and data flow'']"
  by (simp add: generateImplementationSteps_def push_each_map)

text \<open>
  C3, as the claim states it, fails: for the features slack and telegram, the format
  "microservices" and the task manager in use, the generator does not return 7 steps,
  and not the list orchestrator step, two feature steps, two task-manager steps, two
  closing steps.
\<close>

theorem steps_microservices_not_seven:
  "length (generateImplementationSteps [''slack'', ''telegram''] ''microservices'' True) \<noteq> 7
   \<and> generateImplementationSteps [''slack'', ''telegram''] ''microservices'' True \<noteq>
     [''Create main orchestrator workflow with webhook trigger'',
      ''Implement slack microservice with webhook trigger and response'',
      ''Implement telegram microservice with webhook trigger and response'',
      ''Integrate Task Manager for workflow orchestration'',
      ''Add task creation and monitoring capabilities'',
      ''Connect microservices via HTTP requests'',
      ''Add centralized logging and error handling'']"
  by (simp add: generateImplementationSteps_def push_each_map)

text \<open>
  C3, amended. For the features slack and telegram, the format "microservices" and the
  task manager in use, the generator returns exactly 8 steps in this order: the
  orchestrator-creation step, the step that designs the separate microservice
  workflows, one microservice step per feature in input order, the two task-manager
  steps, and the two closing steps (HTTP connection, centralized logging).
\<close>

theorem steps_microservices_example:
  "generateImplementationSteps [''slack'', ''telegram''] ''microservices'' True =
     [''Create main orchestrator workflow with webhook trigger'',
      ''Design separate microservice workflows for each feature'',
      ''Implement slack microservice with webhook trigger and response'',
      ''Implement telegram microservice with webhook trigger and response'',
      ''Integrate Task Manager for workflow orchestration'',
      ''Add task creation and monitoring capabilities'',
      ''Connect microservices via HTTP requests'',
      ''Add centralized logging and error handling'']"
  by (simp add: generateImplementationSteps_def push_each_map)

text \<open>
  C4, as the claim states it, fails: for no features, the format "single" and no task
  manager, the result is not the list of the three closing steps alone.
\<close>

theorem steps_single_empty_not_closing_only:
  "generateImplementationSteps [] ''single'' False \<noteq>
     [''Implement error handling and logging'',
      ''Add documentation via Sticky Notes'',
      ''Test all connections and data flow'']"
  by (simp add: generateImplementationSteps_def push_each_map)

text \<open>
  C4, amended. For no features, the format "single" and no task manager, the generator
  returns the trigger-creation step followed by exactly the three closing steps of the
  single mode (error handling, documentation, testing), with no per-feature step.
\<close>

theorem steps_single_empty:
  "generateImplementationSteps [] ''single'' False =
     [''Create main workflow with appropriate trigger'',
      ''Implement error handling and logging'',
      ''Add documentation via Sticky Notes'',
      ''Test all connections and data flow'']"
  by (simp add: generateImplementationSteps_def push_each_map)

section \<open>Insight synthesizer\<close>

text \<open>
  C8. For every insights object whose complexity estimate is "advanced", whose
  recommended patterns do not include ai_agent and none of whose suggested nodes has a
  type containing "database", the considerations are exactly three, in this order: the
  advanced-complexity note, the reliability note, the logging note.
\<close>

theorem getConsiderations_advanced:
  assumes "complexity_estimate i = Some ''advanced''"
    and "''ai_agent'' \<notin> set (or_empty (recommended_patterns i))"
    and "\<not> list_ex (\<lambda>n. opt_includes (ns_type n) ''database'') (or_empty (node_suggestions i))"
  shows "getConsiderations i =
     [''This is a complex workflow that may require multiple sub-workflows'',
      ''Consider error handling and retry logic for reliability'',
      ''Implement logging for debugging and monitoring'']"
  using assms
  by (simp add: getConsiderations_def or_empty_def split: option.splits)

theorem getConsiderations_advanced_witness:
  "complexity_estimate insights_advanced = Some ''advanced''
   \<and> ''ai_agent'' \<notin> set (or_empty (recommended_patterns insights_advanced))
   \<and> \<not> list_ex (\<lambda>n. opt_includes (ns_type n) ''database'')
          (or_empty (node_suggestions insights_advanced))
   \<and> getConsiderations insights_advanced =
     [''This is a complex workflow that may require multiple sub-workflows'',
      ''Consider error handling and retry logic for reliability'',
      ''Implement logging for debugging and monitoring'']"
  using getConsiderations_advanced [of insights_advanced]
  by (simp add: insights_advanced_def or_empty_def opt_includes_def)

text \<open>
  C6. The approach suggestion is chosen by first match over the ordered checks
  microservice, ai_agent, rag, top workflow present, generic fallback: each result is
  returned exactly when its check holds and all earlier checks fail, whatever the later
  checks say.
\<close>

theorem suggestApproach_first_match:
  assumes "pats = or_empty (recommended_patterns i)"
  shows "(''microservice'' \<in> set pats \<longrightarrow>
            suggestApproach i = ''Use a microservice pattern with webhook triggers for modular design.'')
       \<and> (''microservice'' \<notin> set pats \<and> ''ai_agent'' \<in> set pats \<longrightarrow>
            suggestApproach i = ''Implement an AI agent with tool integration for intelligent automation.'')
       \<and> (''microservice'' \<notin> set pats \<and> ''ai_agent'' \<notin> set pats \<and> ''rag'' \<in> set pats \<longrightarrow>
            suggestApproach i =
              ''Use RAG pattern for context-aware responses with vector database integration.'')
       \<and> (\<forall>w. ''microservice'' \<notin> set pats \<and> ''ai_agent'' \<notin> set pats \<and> ''rag'' \<notin> set pats
              \<and> topWorkflow i = Some w \<longrightarrow>
            suggestApproach i =
              ''Consider adapting the '' @ dquote @ wm_name w @ dquote @ '' workflow as a starting point.'')
       \<and> (''microservice'' \<notin> set pats \<and> ''ai_agent'' \<notin> set pats \<and> ''rag'' \<notin> set pats
              \<and> topWorkflow i = None \<longrightarrow>
            suggestApproach i = ''Start with a simple webhook trigger and build incrementally.'')"
  using assms by (simp add: suggestApproach_def)

theorem suggestApproach_first_match_witness:
  "''microservice'' \<in> set (or_empty (recommended_patterns insights_all))
   \<and> ''ai_agent'' \<in> set (or_empty (recommended_patterns insights_all))
   \<and> ''rag'' \<in> set (or_empty (recommended_patterns insights_all))
   \<and> topWorkflow insights_all = Some \<lparr>wm_name = ''Helpdesk''\<rparr>
   \<and> suggestApproach insights_all =
       ''Use a microservice pattern with webhook triggers for modular design.''
   \<and> suggestApproach (insights_all\<lparr>recommended_patterns := Some [''rag'', ''ai_agent'']\<rparr>) =
       ''Implement an AI agent with tool integration for intelligent automation.''
   \<and> suggestApproach (insights_all\<lparr>recommended_patterns := Some [''rag'']\<rparr>) =
       ''Use RAG pattern for context-aware responses with vector database integration.''
   \<and> suggestApproach (insights_all\<lparr>recommended_patterns := None\<rparr>) =
       ''Consider adapting the '' @ dquote @ ''Helpdesk'' @ dquote @ '' workflow as a starting point.''
   \<and> suggestApproach (insights_all\<lparr>recommended_patterns := Some [], workflow_matches := Some []\<rparr>) =
       ''Start with a simple webhook trigger and build incrementally.''"
  using suggestApproach_first_match [of "or_empty (recommended_patterns insights_all)" insights_all]
    suggestApproach_first_match [of "[''rag'', ''ai_agent'']"
      "insights_all\<lparr>recommended_patterns := Some [''rag'', ''ai_agent'']\<rparr>"]
    suggestApproach_first_match [of "[''rag'']" "insights_all\<lparr>recommended_patterns := Some [''rag'']\<rparr>"]
    suggestApproach_first_match [of "[]" "insights_all\<lparr>recommended_patterns := None\<rparr>"]
    suggestApproach_first_match [of "[]"
      "insights_all\<lparr>recommended_patterns := Some [], workflow_matches := Some []\<rparr>"]
  by (simp add: insights_all_def or_empty_def topWorkflow_def)

lemma topWorkflow_iff:
  "topWorkflow i = Some w \<longleftrightarrow> (\<exists>ws. workflow_matches i = Some (w # ws))"
  by (auto simp: topWorkflow_def split: option.splits list.splits)

subsection \<open>Key components\<close>

lemma str_includes_sublist: "str_includes s sub = sublist sub s"
  by (induction s) (auto simp: sublist_Cons_right)

lemma opt_includes_iff:
  "opt_includes t sub = (\<exists>s. t = Some s \<and> sublist sub s)"
  by (cases t) (simp_all add: opt_includes_def str_includes_sublist)

lemma node_suffix_neq1: "x @ '' node'' \<noteq> ''Webhook or manual trigger''"
proof
  assume "x @ '' node'' = ''Webhook or manual trigger''"
  then have "last (x @ '' node'') = last ''Webhook or manual trigger''" by (rule arg_cong)
  then show False by simp
qed

lemma node_suffix_neq2: "x @ '' node'' \<noteq> ''AI/LLM integration''"
proof
  assume "x @ '' node'' = ''AI/LLM integration''"
  then have "last (x @ '' node'') = last ''AI/LLM integration''" by (rule arg_cong)
  then show False by simp
qed

lemma node_suffix_neq3: "x @ '' node'' \<noteq> ''Database storage''"
proof
  assume "x @ '' node'' = ''Database storage''"
  then have "last (butlast (x @ '' node'')) = last (butlast ''Database storage'')" by (rule arg_cong)
  then show False by (simp add: butlast_append)
qed

lemma node_suffix_neq4: "x @ '' node'' \<noteq> ''Messaging integration''"
proof
  assume "x @ '' node'' = ''Messaging integration''"
  then have "last (x @ '' node'') = last ''Messaging integration''" by (rule arg_cong)
  then show False by simp
qed

lemma identifyKeyComponents_eq:
  "identifyKeyComponents i =
     (if hasTrigger (or_empty (node_suggestions i)) then [] else [''Webhook or manual trigger''])
     @ (if hasAI (or_empty (node_suggestions i)) then [''AI/LLM integration''] else [])
     @ (if hasDatabase (or_empty (node_suggestions i)) then [''Database storage''] else [])
     @ (if hasMessaging (or_empty (node_suggestions i)) then [''Messaging integration''] else [])
     @ map (\<lambda>n. ns_name n @ '' node'') (take 3 (or_empty (node_suggestions i)))"
  by (simp add: identifyKeyComponents_def push_each_map Let_def)

lemma in_set_identify:
  "c \<in> set (identifyKeyComponents i) =
     ((c = ''Webhook or manual trigger'' \<and> \<not> hasTrigger (or_empty (node_suggestions i)))
      \<or> (c = ''AI/LLM integration'' \<and> hasAI (or_empty (node_suggestions i)))
      \<or> (c = ''Database storage'' \<and> hasDatabase (or_empty (node_suggestions i)))
      \<or> (c = ''Messaging integration'' \<and> hasMessaging (or_empty (node_suggestions i)))
      \<or> c \<in> (\<lambda>n. ns_name n @ '' node'') ` set (take 3 (or_empty (node_suggestions i))))"
  unfolding identifyKeyComponents_eq by (simp only: set_append set_map Un_iff) auto

lemma trigger_in: "(''Webhook or manual trigger'' \<in> set (identifyKeyComponents i)) =
   (\<not> hasTrigger (or_empty (node_suggestions i)))"
  unfolding in_set_identify using node_suffix_neq1 by fastforce

lemma ai_in: "(''AI/LLM integration'' \<in> set (identifyKeyComponents i)) =
   hasAI (or_empty (node_suggestions i))"
  unfolding in_set_identify using node_suffix_neq2 by fastforce

lemma db_in: "(''Database storage'' \<in> set (identifyKeyComponents i)) =
   hasDatabase (or_empty (node_suggestions i))"
  unfolding in_set_identify using node_suffix_neq3 by fastforce

lemma msg_in: "(''Messaging integration'' \<in> set (identifyKeyComponents i)) =
   hasMessaging (or_empty (node_suggestions i))"
  unfolding in_set_identify using node_suffix_neq4 by fastforce

lemma fixed_part:
  "identifyKeyComponents i =
     filter (\<lambda>c. c \<in> set (identifyKeyComponents i))
        [''Webhook or manual trigger'', ''AI/LLM integration'',
         ''Database storage'', ''Messaging integration'']
     @ map (\<lambda>n. ns_name n @ '' node'') (take 3 (or_empty (node_suggestions i)))"
  apply (simp only: filter.simps trigger_in ai_in db_in msg_in)
  apply (subst identifyKeyComponents_eq)
  apply simp
  done

text \<open>
  C9. With \<open>ns\<close> the suggested nodes of the insights (none when the field is absent):
  the entry "Webhook or manual trigger" is in the key components if and only if no
  suggested node has a type containing "trigger" or "webhook"; the AI, database and
  messaging entries are in it if and only if some suggested node has a type containing
  one of their substrings; and the list is these fixed entries, in this order, followed
  by one entry "<name> node" for each of the first three suggested nodes.
\<close>

theorem identifyKeyComponents_spec:
  fixes i :: insights
  defines "ns \<equiv> or_empty (node_suggestions i)"
  shows "(''Webhook or manual trigger'' \<in> set (identifyKeyComponents i)) =
           (\<not> (\<exists>n \<in> set ns. opt_includes (ns_type n) ''trigger'' \<or> opt_includes (ns_type n) ''webhook''))
       \<and> (''AI/LLM integration'' \<in> set (identifyKeyComponents i)) =
           (\<exists>n \<in> set ns. opt_includes (ns_type n) ''ai'' \<or> opt_includes (ns_type n) ''agent''
                            \<or> opt_includes (ns_type n) ''openai'')
       \<and> (''Database storage'' \<in> set (identifyKeyComponents i)) =
           (\<exists>n \<in> set ns. opt_includes (ns_type n) ''supabase'' \<or> opt_includes (ns_type n) ''postgres'')
       \<and> (''Messaging integration'' \<in> set (identifyKeyComponents i)) =
           (\<exists>n \<in> set ns. opt_includes (ns_type n) ''telegram'' \<or> opt_includes (ns_type n) ''slack''
                            \<or> opt_includes (ns_type n) ''email'')
       \<and> identifyKeyComponents i =
           filter (\<lambda>c. c \<in> set (identifyKeyComponents i))
             [''Webhook or manual trigger'', ''AI/LLM integration'',
              ''Database storage'', ''Messaging integration'']
           @ map (\<lambda>n. ns_name n @ '' node'') (take 3 ns)"
proof -
  have 1: "(''Webhook or manual trigger'' \<in> set (identifyKeyComponents i)) =
           (\<not> (\<exists>n \<in> set ns. opt_includes (ns_type n) ''trigger'' \<or> opt_includes (ns_type n) ''webhook''))"
    unfolding ns_def trigger_in by (simp add: hasTrigger_def list_ex_iff)
  have 2: "(''AI/LLM integration'' \<in> set (identifyKeyComponents i)) =
           (\<exists>n \<in> set ns. opt_includes (ns_type n) ''ai'' \<or> opt_includes (ns_type n) ''agent''
                            \<or> opt_includes (ns_type n) ''openai'')"
    unfolding ns_def ai_in by (simp add: hasAI_def list_ex_iff)
  have 3: "(''Database storage'' \<in> set (identifyKeyComponents i)) =
           (\<exists>n \<in> set ns. opt_includes (ns_type n) ''supabase'' \<or> opt_includes (ns_type n) ''postgres'')"
    unfolding ns_def db_in by (simp add: hasDatabase_def list_ex_iff)
  have 4: "(''Messaging integration'' \<in> set (identifyKeyComponents i)) =
           (\<exists>n \<in> set ns. opt_includes (ns_type n) ''telegram'' \<or> opt_includes (ns_type n) ''slack''
                            \<or> opt_includes (ns_type n) ''email'')"
    unfolding ns_def msg_in by (simp add: hasMessaging_def list_ex_iff)
  have 5: "identifyKeyComponents i =
           filter (\<lambda>c. c \<in> set (identifyKeyComponents i))
             [''Webhook or manual trigger'', ''AI/LLM integration'',
              ''Database storage'', ''Messaging integration'']
           @ map (\<lambda>n. ns_name n @ '' node'') (take 3 ns)"
    unfolding ns_def by (rule fixed_part)
  from 1 2 3 4 5 show ?thesis by blast
qed

section \<open>Type mapping tables\<close>

lemma toLowerChar_idem: "toLowerChar (toLowerChar c) = toLowerChar c"
  by (simp add: toLowerChar_def Let_def)

lemma toLowerCase_idem: "toLowerCase (toLowerCase s) = toLowerCase s"
  by (simp add: toLowerCase_def toLowerChar_idem)

text \<open>The integration resolver is case-insensitive.\<close>

lemma getIntegrationNodeType_case_insensitive:
  "toLowerCase a = toLowerCase b \<Longrightarrow> getIntegrationNodeType a = getIntegrationNodeType b"
  by (simp add: getIntegrationNodeType_def)

lemma getIntegrationNodeType_lower:
  "getIntegrationNodeType (toLowerCase a) = getIntegrationNodeType a"
  by (simp add: getIntegrationNodeType_def toLowerCase_idem)

lemma getIntegrationNodeType_Slack:
  "getIntegrationNodeType ''Slack'' = Str ''n8n-nodes-base.slack''"
  "getIntegrationNodeType ''slack'' = Str ''n8n-nodes-base.slack''"
  by code_simp+

text \<open>The trigger resolver matches exactly.\<close>

lemma getTriggerNodeType_known:
  "getTriggerNodeType ''webhook'' = Str ''n8n-nodes-base.webhook''"
  "getTriggerNodeType ''schedule'' = Str ''n8n-nodes-base.scheduleTrigger''"
  "getTriggerNodeType ''manual'' = Str ''n8n-nodes-base.manualTrigger''"
  "getTriggerNodeType ''chat'' = Str ''@n8n/n8n-nodes-langchain.chatTrigger''"
  by (simp_all add: getTriggerNodeType_def get_property_def js_or_def triggerMap_def)

lemma getTriggerNodeType_exact:
  "getTriggerNodeType ''Webhook'' = Str ''n8n-nodes-base.manualTrigger''"
  by (simp add: getTriggerNodeType_def get_property_def js_or_def triggerMap_def
        object_prototype_keys_def)

text \<open>
  A key that is neither a key of the table nor a property name of
  \<^verbatim>\<open>Object.prototype\<close> resolves to the fallback type.
\<close>

lemma getTriggerNodeType_unknown:
  "key \<notin> fst ` set triggerMap \<Longrightarrow> key \<notin> set object_prototype_keys \<Longrightarrow>
   getTriggerNodeType key = Str ''n8n-nodes-base.manualTrigger''"
  by (simp add: getTriggerNodeType_def get_property_def js_or_def map_of_eq_None_iff[symmetric])

lemma getIntegrationNodeType_unknown:
  "toLowerCase key \<notin> fst ` set integrationMap \<Longrightarrow>
   toLowerCase key \<notin> set object_prototype_keys \<Longrightarrow>
   getIntegrationNodeType key = Str ''n8n-nodes-base.httpRequest''"
  by (simp add: getIntegrationNodeType_def get_property_def js_or_def map_of_eq_None_iff[symmetric])

text \<open>The resolvers never yield \<^verbatim>\<open>undefined\<close> or the empty string.\<close>

lemma js_or_truthy: "truthy b \<Longrightarrow> truthy (js_or a b)"
  by (simp add: js_or_def)

lemma resolvers_truthy:
  "truthy (getTriggerNodeType key)" "truthy (getIntegrationNodeType key)"
  by (simp_all add: getTriggerNodeType_def getIntegrationNodeType_def js_or_truthy)

text \<open>
  C5, evaluated where it fails. The key "constructor" is in neither table, yet neither
  resolver yields its fallback type for it: the lookup finds the property of that name
  that every object literal inherits, which is truthy, so the fallback after
  \<^verbatim>\<open>||\<close> is not taken.
\<close>

theorem resolvers_inherited_key:
  "''constructor'' \<notin> fst ` set triggerMap
   \<and> getTriggerNodeType ''constructor'' = Builtin ''constructor''
   \<and> getTriggerNodeType ''constructor'' \<noteq> Str ''n8n-nodes-base.manualTrigger''
   \<and> toLowerCase ''constructor'' \<notin> fst ` set integrationMap
   \<and> getIntegrationNodeType ''constructor'' = Builtin ''constructor''
   \<and> getIntegrationNodeType ''constructor'' \<noteq> Str ''n8n-nodes-base.httpRequest''"
  by (simp add: getTriggerNodeType_def getIntegrationNodeType_def get_property_def js_or_def
        triggerMap_def integrationMap_def object_prototype_keys_def toLowerCase_def toLowerChar_def)

section \<open>Implementation steps of the generate-workflow handler\<close>

lemma show_nat_digits:
  "show_nat 1 = ''1''" "show_nat 2 = ''2''" "show_nat 3 = ''3''" "show_nat 4 = ''4''"
  "show_nat 5 = ''5''" "show_nat 6 = ''6''" "show_nat 7 = ''7''"
  by code_simp+

lemma show_nat_Sucs:
  "show_nat (Suc 0) = ''1''"
  "show_nat (Suc (Suc 0)) = ''2''"
  "show_nat (Suc (Suc (Suc 0))) = ''3''"
  "show_nat (Suc (Suc (Suc (Suc 0)))) = ''4''"
  "show_nat (Suc (Suc (Suc (Suc (Suc 0))))) = ''5''"
  "show_nat (Suc (Suc (Suc (Suc (Suc (Suc 0)))))) = ''6''"
  "show_nat (Suc (Suc (Suc (Suc (Suc (Suc (Suc 0))))))) = ''7''"
  using show_nat_digits by (simp_all add: eval_nat_numeral)

lemma js_some_True: "js_some p xs = Inr True \<Longrightarrow> \<exists>x \<in> set xs. p x = Inr True"
  by (induction xs) (auto split: sum.splits if_splits)

lemma js_some_False: "js_some p xs = Inr False \<Longrightarrow> x \<in> set xs \<Longrightarrow> p x = Inr False"
  by (induction xs) (auto split: sum.splits if_splits)

lemma js_some_total:
  "list_all (\<lambda>x. \<exists>b. p x = Inr b) xs \<Longrightarrow> \<exists>b. js_some p xs = Inr b"
  by (induction xs) (auto split: sum.splits)

lemma type_includes_Inr:
  "type_includes v sub = Inr b \<longleftrightarrow> (\<exists>t. v = Str t \<and> b = str_includes t sub)"
  by (cases v) auto

lemma handler_steps_eq:
  "handler_generateImplementationSteps s =
     (case js_some (\<lambda>n. type_includes (n_type n) ''agent'') (nodes s) of
        Inl e \<Rightarrow> Inl e
      | Inr hasAgent \<Rightarrow> Inr (if hasAgent then
          [''1. Create a new workflow in n8n'',
           ''2. Add the trigger node and configure its settings'',
           ''3. Configure the AI agent with appropriate model and tools'',
           ''4. Connect all nodes as shown in the structure'',
           ''5. Configure credentials for each integration'',
           ''6. Test the workflow with sample data'',
           ''7. Add error handling and logging nodes'']
        else
          [''1. Create a new workflow in n8n'',
           ''2. Add the trigger node and configure its settings'',
           ''3. Connect all nodes as shown in the structure'',
           ''4. Configure credentials for each integration'',
           ''5. Test the workflow with sample data'',
           ''6. Add error handling and logging nodes'']))"
  by (simp add: handler_generateImplementationSteps_def show_nat_Sucs split: sum.splits)

lemma numbered7:
  assumes "k < 7"
  shows "prefix (show_nat (k + 1) @ ''. '')
     ([''1. Create a new workflow in n8n'',
           ''2. Add the trigger node and configure its settings'',
           ''3. Configure the AI agent with appropriate model and tools'',
           ''4. Connect all nodes as shown in the structure'',
           ''5. Configure credentials for each integration'',
           ''6. Test the workflow with sample data'',
           ''7. Add error handling and logging nodes''] ! k)"
proof -
  from assms consider "k = 0" | "k = 1" | "k = 2" | "k = 3" | "k = 4" | "k = 5" | "k = 6" by linarith
  then show ?thesis by cases (simp_all add: show_nat_digits show_nat_Sucs)
qed

lemma numbered6:
  assumes "k < 6"
  shows "prefix (show_nat (k + 1) @ ''. '')
     ([''1. Create a new workflow in n8n'',
           ''2. Add the trigger node and configure its settings'',
           ''3. Connect all nodes as shown in the structure'',
           ''4. Configure credentials for each integration'',
           ''5. Test the workflow with sample data'',
           ''6. Add error handling and logging nodes''] ! k)"
proof -
  from assms consider "k = 0" | "k = 1" | "k = 2" | "k = 3" | "k = 4" | "k = 5" by linarith
  then show ?thesis by cases (simp_all add: show_nat_digits show_nat_Sucs)
qed

text \<open>
  C10. The step generator of the generate-workflow handler returns a list for every
  structure all of whose node types are strings, and every list it returns is
  consecutively numbered: it has 7 steps when some node type contains "agent" and 6
  steps otherwise, and its k-th step (counting from 1) starts with "k. ".
\<close>

theorem handler_steps_numbered:
  "(list_all (\<lambda>n. \<exists>t. n_type n = Str t) (nodes s) \<longrightarrow>
      (\<exists>steps. handler_generateImplementationSteps s = Inr steps))
   \<and> (\<forall>steps. handler_generateImplementationSteps s = Inr steps \<longrightarrow>
        (length steps = (if \<exists>n \<in> set (nodes s). \<exists>t. n_type n = Str t \<and> str_includes t ''agent''
                         then 7 else 6))
        \<and> (\<forall>k < length steps. prefix (show_nat (k + 1) @ ''. '') (steps ! k)))"
proof (rule conjI; (intro impI allI)?; (rule conjI)?)
  assume "list_all (\<lambda>n. \<exists>t. n_type n = Str t) (nodes s)"
  then have "list_all (\<lambda>n. \<exists>b. type_includes (n_type n) ''agent'' = Inr b) (nodes s)"
    by (auto simp: list_all_iff)
  from js_some_total [OF this]
  show "\<exists>steps. handler_generateImplementationSteps s = Inr steps"
    by (auto simp: handler_steps_eq)
next
  fix steps
  assume r: "handler_generateImplementationSteps s = Inr steps"
  then obtain h where h: "js_some (\<lambda>n. type_includes (n_type n) ''agent'') (nodes s) = Inr h"
    by (auto simp: handler_steps_eq split: sum.splits)
  have hiff: "h = (\<exists>n \<in> set (nodes s). \<exists>t. n_type n = Str t \<and> str_includes t ''agent'')"
  proof (cases h)
    case True
    with h js_some_True [of "\<lambda>n. type_includes (n_type n) ''agent''" "nodes s"]
    show ?thesis by (auto simp: type_includes_Inr)
  next
    case False
    with h js_some_False [of "\<lambda>n. type_includes (n_type n) ''agent''" "nodes s"]
    show ?thesis by (fastforce simp: type_includes_Inr)
  qed
  from r h show "length steps =
      (if \<exists>n \<in> set (nodes s). \<exists>t. n_type n = Str t \<and> str_includes t ''agent'' then 7 else 6)"
    unfolding hiff [symmetric] by (auto simp: handler_steps_eq)
  show "\<forall>k < length steps. prefix (show_nat (k + 1) @ ''. '') (steps ! k)"
  proof (cases h)
    case True
    with r h show ?thesis using numbered7 by (auto simp: handler_steps_eq)
  next
    case False
    with r h show ?thesis using numbered6 by (auto simp: handler_steps_eq)
  qed
qed

theorem handler_steps_numbered_witness:
  "list_all (\<lambda>n. \<exists>t. n_type n = Str t) (nodes wf_with_agent)
   \<and> (\<exists>steps. handler_generateImplementationSteps wf_with_agent = Inr steps
         \<and> length steps = 7 \<and> prefix ''7. '' (steps ! 6))
   \<and> list_all (\<lambda>n. \<exists>t. n_type n = Str t) (nodes wf_plain)
   \<and> (\<exists>steps. handler_generateImplementationSteps wf_plain = Inr steps
         \<and> length steps = 6 \<and> prefix ''6. '' (steps ! 5))"
proof -
  have a1: "list_all (\<lambda>n. \<exists>t. n_type n = Str t) (nodes wf_with_agent)"
    by (simp add: wf_with_agent_def)
  have a2: "\<exists>n \<in> set (nodes wf_with_agent). \<exists>t. n_type n = Str t \<and> str_includes t ''agent''"
    by (simp add: wf_with_agent_def)
  from handler_steps_numbered [of wf_with_agent] a1
  obtain s1 where s1: "handler_generateImplementationSteps wf_with_agent = Inr s1" by blast
  with handler_steps_numbered [of wf_with_agent] a2
  have l1: "length s1 = 7" and n1: "\<forall>k < length s1. prefix (show_nat (k + 1) @ ''. '') (s1 ! k)"
    by simp_all
  from n1 l1 have p1: "prefix ''7. '' (s1 ! 6)"
    using show_nat_digits by (auto dest: spec [of _ 6])
  have b1: "list_all (\<lambda>n. \<exists>t. n_type n = Str t) (nodes wf_plain)"
    by (simp add: wf_plain_def)
  have b2: "\<not> (\<exists>n \<in> set (nodes wf_plain). \<exists>t. n_type n = Str t \<and> str_includes t ''agent'')"
    by (simp add: wf_plain_def)
  from handler_steps_numbered [of wf_plain] b1
  obtain s2 where s2: "handler_generateImplementationSteps wf_plain = Inr s2" by blast
  with handler_steps_numbered [of wf_plain] b2
  have l2: "length s2 = 6" and n2: "\<forall>k < length s2. prefix (show_nat (k + 1) @ ''. '') (s2 ! k)"
    by simp_all
  from n2 l2 have p2: "prefix ''6. '' (s2 ! 5)"
    using show_nat_digits by (auto dest: spec [of _ 5])
  from a1 s1 l1 p1 b1 s2 l2 p2 show ?thesis by blast
qed

section \<open>The graph builder keeps a simple path\<close>

lemma digit_val: "d < 10 \<Longrightarrow> (of_char (digit_char d) :: nat) - 48 = d"
  by (simp add: digit_char_def)

lemma read_nat_snoc: "read_nat (s @ [c]) = 10 * read_nat s + (of_char c - 48)"
  by (simp add: read_nat_def)

lemma read_show_nat: "read_nat (show_nat n) = n"
proof (induction n rule: show_nat.induct)
  case (1 n)
  show ?case
  proof (cases "n < 10")
    case True
    then show ?thesis
      by (subst show_nat.simps) (simp add: read_nat_def digit_val)
  next
    case False
    with 1 have "read_nat (show_nat (n div 10)) = n div 10" by simp
    with False show ?thesis
      by (subst show_nat.simps) (simp add: read_nat_snoc digit_val)
  qed
qed

lemma show_nat_inj: "show_nat m = show_nat n \<Longrightarrow> m = n"
  by (metis read_show_nat)

lemma set_property_fresh:
  "k \<notin> fst ` set kvs \<Longrightarrow> set_property k v kvs = kvs @ [(k, v)]"
  by (induction kvs) auto

lemma zip_tl_snoc:
  "xs \<noteq> [] \<Longrightarrow> zip (xs @ [x]) (tl (xs @ [x])) = zip xs (tl xs) @ [(last xs, x)]"
proof (induction xs)
  case Nil
  then show ?case by simp
next
  case (Cons a xs)
  then show ?case by (cases xs) simp_all
qed

lemma fst_zip_tl: "fst ` set (zip xs (tl xs)) \<subseteq> set (butlast xs)"
proof (induction xs)
  case Nil
  then show ?case by simp
next
  case (Cons a xs)
  then show ?case by (cases xs) auto
qed

lemma last_not_source:
  assumes "xs \<noteq> []" "distinct xs"
  shows "last xs \<notin> fst ` set (zip xs (tl xs))"
proof -
  from assms have "last xs \<notin> set (butlast xs)"
    by (metis append_butlast_last_id distinct_append disjoint_iff list.set_intros(1))
  with fst_zip_tl [of xs] show ?thesis by blast
qed

lemma link_node_inv:
  assumes inv: "chain_inv b"
    and fresh: "n_id nd \<notin> set (map n_id (b_nodes b))"
    and allowed: "n_id nd = ''agent_'' @ show_nat cnt \<or> n_id nd = ''node_'' @ show_nat cnt"
    and le: "nodeCount b \<le> cnt"
  shows "chain_inv (link_node nd cnt b)"
proof -
  define ids where "ids = map n_id (b_nodes b)"
  define x where "x = n_id nd"
  define f where "f = (\<lambda>(s :: string, t). (s, single_edge t))"
  from inv have ne: "ids \<noteq> []" and hd: "hd ids = ''trigger_1''"
    and prev: "previousNodeId b = last ids" and dist: "distinct ids"
    and conns: "b_connections b = map f (zip ids (tl ids))"
    and sub: "set ids \<subseteq> {''trigger_1''} \<union> (\<lambda>k. ''agent_'' @ show_nat k) ` {..nodeCount b}
                        \<union> (\<lambda>k. ''node_'' @ show_nat k) ` {..nodeCount b}"
    unfolding ids_def f_def by (simp_all add: chain_inv_def Let_def)
  from fresh have fresh': "x \<notin> set ids" unfolding ids_def x_def .
  have keys: "fst ` set (b_connections b) = fst ` set (zip ids (tl ids))"
    unfolding conns f_def by force
  from last_not_source [OF ne dist] have "previousNodeId b \<notin> fst ` set (b_connections b)"
    unfolding keys prev .
  then have sp: "set_property (previousNodeId b) (single_edge x) (b_connections b)
      = b_connections b @ [(previousNodeId b, single_edge x)]"
    by (rule set_property_fresh)
  have ids': "map n_id (b_nodes (link_node nd cnt b)) = ids @ [x]"
    by (simp add: link_node_def ids_def x_def)
  have conns': "b_connections (link_node nd cnt b) = map f (zip (ids @ [x]) (tl (ids @ [x])))"
    unfolding zip_tl_snoc [OF ne]
    using sp by (simp add: link_node_def conns prev f_def x_def)
  have prev': "previousNodeId (link_node nd cnt b) = last (ids @ [x])"
    by (simp add: link_node_def x_def)
  have cnt': "nodeCount (link_node nd cnt b) = cnt"
    by (simp add: link_node_def)
  have m1: "(\<lambda>k. ''agent_'' @ show_nat k) ` {..nodeCount b} \<subseteq> (\<lambda>k. ''agent_'' @ show_nat k) ` {..cnt}"
    using le by (intro image_mono) simp
  have m2: "(\<lambda>k. ''node_'' @ show_nat k) ` {..nodeCount b} \<subseteq> (\<lambda>k. ''node_'' @ show_nat k) ` {..cnt}"
    using le by (intro image_mono) simp
  have xin: "x \<in> (\<lambda>k. ''agent_'' @ show_nat k) ` {..cnt} \<union> (\<lambda>k. ''node_'' @ show_nat k) ` {..cnt}"
    using allowed unfolding x_def by blast
  have sub': "set (ids @ [x]) \<subseteq> {''trigger_1''} \<union> (\<lambda>k. ''agent_'' @ show_nat k) ` {..cnt}
                        \<union> (\<lambda>k. ''node_'' @ show_nat k) ` {..cnt}"
    using sub m1 m2 xin by (simp only: set_append list.set) blast
  have hd': "hd (ids @ [x]) = ''trigger_1''" using ne hd by simp
  have dist': "distinct (ids @ [x])" using dist fresh' by simp
  have ne': "ids @ [x] \<noteq> []" by simp
  show ?thesis
    unfolding chain_inv_def Let_def ids' conns' prev' cnt' f_def [symmetric]
    using ne' hd' dist' sub' by blast
qed

lemma node_id_fresh:
  assumes "chain_inv b"
  shows "''node_'' @ show_nat (nodeCount b + 1) \<notin> set (map n_id (b_nodes b))"
proof
  assume "''node_'' @ show_nat (nodeCount b + 1) \<in> set (map n_id (b_nodes b))"
  with assms have "''node_'' @ show_nat (nodeCount b + 1) \<in>
      {''trigger_1''} \<union> (\<lambda>k. ''agent_'' @ show_nat k) ` {..nodeCount b}
         \<union> (\<lambda>k. ''node_'' @ show_nat k) ` {..nodeCount b}"
    unfolding chain_inv_def Let_def by blast
  then obtain k where "k \<le> nodeCount b" "show_nat (nodeCount b + 1) = show_nat k"
    by auto
  then show False using show_nat_inj by fastforce
qed

lemma agent_id_fresh:
  assumes "chain_inv b"
  shows "''agent_'' @ show_nat (nodeCount b + 1) \<notin> set (map n_id (b_nodes b))"
proof
  assume "''agent_'' @ show_nat (nodeCount b + 1) \<in> set (map n_id (b_nodes b))"
  with assms have "''agent_'' @ show_nat (nodeCount b + 1) \<in>
      {''trigger_1''} \<union> (\<lambda>k. ''agent_'' @ show_nat k) ` {..nodeCount b}
         \<union> (\<lambda>k. ''node_'' @ show_nat k) ` {..nodeCount b}"
    unfolding chain_inv_def Let_def by blast
  then obtain k where "k \<le> nodeCount b" "show_nat (nodeCount b + 1) = show_nat k"
    by auto
  then show False using show_nat_inj by fastforce
qed

lemma add_agent_inv:
  assumes "chain_inv b"
  shows "chain_inv (add_agent b)"
  unfolding add_agent_def Let_def
  using agent_id_fresh [OF assms]
  by (intro link_node_inv [OF assms]) simp_all

lemma add_integration_inv:
  assumes "chain_inv b"
  shows "chain_inv (add_integration x b)"
  unfolding add_integration_def Let_def
  using node_id_fresh [OF assms]
  by (intro link_node_inv [OF assms]) simp_all

lemma add_suggested_inv:
  assumes "chain_inv b"
  shows "chain_inv (add_suggested x b)"
  unfolding add_suggested_def Let_def
  using node_id_fresh [OF assms]
  by (intro link_node_inv [OF assms]) simp_all

lemma fold_inv:
  assumes "\<And>x b. P b \<Longrightarrow> P (f x b)"
  shows "P b \<Longrightarrow> P (fold f xs b)"
  by (induction xs arbitrary: b) (simp_all add: assms)

lemma add_integration_length: "length (b_nodes (fold add_integration xs b)) = length (b_nodes b) + length xs"
  by (induction xs arbitrary: b) (simp_all add: add_integration_def link_node_def Let_def)

lemma add_suggested_length: "length (b_nodes (fold add_suggested xs b)) = length (b_nodes b) + length xs"
  by (induction xs arbitrary: b) (simp_all add: add_suggested_def link_node_def Let_def)

lemma edges_of_chain:
  "edges_of (map (\<lambda>(s, t). (s, single_edge t)) ps) = ps"
  by (induction ps) (auto simp: edges_of_def single_edge_def)

lemma zip_fst_filter_empty:
  "a \<notin> set xs \<Longrightarrow> filter (\<lambda>e. fst e = a) (zip xs ys) = []"
  by (auto simp: filter_empty_conv dest: set_zip_leftD)

lemma zip_snd_filter_empty:
  "a \<notin> set ys \<Longrightarrow> filter (\<lambda>e. snd e = a) (zip xs ys) = []"
  by (auto simp: filter_empty_conv dest: set_zip_rightD)

lemma out_degree_zip:
  "distinct xs \<Longrightarrow> length (filter (\<lambda>e. fst e = a) (zip xs ys)) \<le> 1"
proof (induction xs arbitrary: ys)
  case Nil
  then show ?case by simp
next
  case (Cons x xs)
  show ?case
  proof (cases ys)
    case Nil
    then show ?thesis by simp
  next
    case (Cons y ys')
    with Cons.prems Cons.IH [of ys'] show ?thesis
      by (auto simp: zip_fst_filter_empty)
  qed
qed

lemma incoming_zip:
  "distinct ys \<Longrightarrow> j < length ys \<Longrightarrow> j < length xs \<Longrightarrow>
   filter (\<lambda>e. snd e = ys ! j) (zip xs ys) = [(xs ! j, ys ! j)]"
proof (induction xs arbitrary: ys j)
  case Nil
  then show ?case by simp
next
  case (Cons x xs)
  from Cons.prems obtain y ys' where ys: "ys = y # ys'" by (cases ys) auto
  show ?case
  proof (cases j)
    case 0
    with Cons.prems ys show ?thesis by (simp add: zip_snd_filter_empty)
  next
    case (Suc j')
    with Cons.prems ys have "ys' ! j' \<noteq> y" by auto
    with Cons.prems ys Suc Cons.IH [of ys' j'] show ?thesis by simp
  qed
qed

lemma incoming_path:
  assumes "distinct ids" "0 < j" "j < length ids"
  shows "filter (\<lambda>e. snd e = ids ! j) (zip ids (tl ids)) = [(ids ! (j - 1), ids ! j)]"
proof -
  from assms obtain j' where j: "j = Suc j'" by (cases j) auto
  from assms have d: "distinct (tl ids)" by (simp add: distinct_tl)
  from assms j have l: "j' < length (tl ids)" "j' < length ids" by auto
  from assms j have n: "tl ids ! j' = ids ! j" by (simp add: nth_tl)
  from incoming_zip [OF d l] show ?thesis unfolding n by (simp add: j)
qed

lemma initial_inv:
  "chain_inv \<lparr>b_nodes = [\<lparr>n_id = ''trigger_1'', n_type = ty, n_name = nm, n_parameters = [],
                             n_position = (250, 300)\<rparr>],
              b_connections = [], previousNodeId = ''trigger_1'', nodeCount = 1\<rparr>"
  by (simp add: chain_inv_def)

lemma generateWorkflowStructure_inv:
  "\<exists>b. chain_inv b \<and> nodes (generateWorkflowStructure d r c) = b_nodes b
       \<and> connections (generateWorkflowStructure d r c) = b_connections b"
proof -
  define tt where "tt = (case trigger r of None \<Rightarrow> inferTrigger c
                         | Some t \<Rightarrow> if t = [] then inferTrigger c else t)"
  define b0 where "b0 = \<lparr>b_nodes = [\<lparr>n_id = ''trigger_1'', n_type = getTriggerNodeType tt,
                             n_name = tt @ '' Trigger'', n_parameters = [],
                             n_position = (250, 300)\<rparr>],
                b_connections = [], previousNodeId = ''trigger_1'', nodeCount = 1\<rparr>"
  define b1 where "b1 = (if wants_agent d c then add_agent b0 else b0)"
  define b2 where "b2 = (case integrations r of None \<Rightarrow> b1 | Some is \<Rightarrow> fold add_integration is b1)"
  define b3 where "b3 = fold add_suggested
                          (case suggested_nodes c of None \<Rightarrow> [] | Some ns \<Rightarrow> take 3 ns) b2"
  have 0: "chain_inv b0" unfolding b0_def by (rule initial_inv)
  then have 1: "chain_inv b1" unfolding b1_def by (simp add: add_agent_inv)
  then have 2: "chain_inv b2" unfolding b2_def
    by (cases "integrations r") (simp_all add: fold_inv [where P = chain_inv] add_integration_inv)
  then have 3: "chain_inv b3" unfolding b3_def
    by (rule fold_inv [where P = chain_inv, rotated]) (rule add_suggested_inv)
  have "generateWorkflowStructure d r c =
      \<lparr>nodes = b_nodes b3, connections = b_connections b3, settings = [(''executionOrder'', ''v1'')]\<rparr>"
    unfolding generateWorkflowStructure_def Let_def b3_def b2_def b1_def b0_def tt_def ..
  with 3 show ?thesis by auto
qed

lemma generateWorkflowStructure_length:
  "length (nodes (generateWorkflowStructure d r c)) =
     1 + (if wants_agent d c then 1 else 0)
       + (case integrations r of None \<Rightarrow> 0 | Some is \<Rightarrow> length is)
       + (case suggested_nodes c of None \<Rightarrow> 0 | Some ns \<Rightarrow> min 3 (length ns))"
  by (simp add: generateWorkflowStructure_def Let_def add_suggested_length add_integration_length
        add_agent_def link_node_def min.commute split: option.splits)

lemma ids_example:
  "map n_id (nodes (generateWorkflowStructure ''Sync orders nightly'' reqs_two context_four)) =
     [''trigger_1'', ''node_2'', ''node_3'', ''node_4'', ''node_5'', ''node_6'']"
  by code_simp

text \<open>
  C2. For every description, requirements and context, the workflow the builder returns
  has exactly one node with id trigger_1 (the first one), pairwise distinct node ids,
  only connection targets that are ids of its nodes, at most one outgoing edge per
  source, and for every node after the trigger exactly one incoming edge, which comes
  from the node placed immediately before it: the edges are those of the path through
  the nodes in their order. It has one node for the trigger, one for the agent when
  asked for, one per integration and one for each of the first three suggested nodes.
\<close>

theorem generateWorkflowStructure_simple_path:
  fixes d :: string and r :: requirements and c :: rag_context
  defines "w \<equiv> generateWorkflowStructure d r c"
  defines "ids \<equiv> map n_id (nodes w)"
  defines "es \<equiv> edges_of (connections w)"
  shows "length (filter (\<lambda>n. n_id n = ''trigger_1'') (nodes w)) = 1
       \<and> hd ids = ''trigger_1''
       \<and> distinct ids
       \<and> (\<forall>e \<in> set es. snd e \<in> set ids)
       \<and> (\<forall>src. length (filter (\<lambda>e. fst e = src) es) \<le> 1)
       \<and> (\<forall>j. 0 < j \<and> j < length ids \<longrightarrow>
             filter (\<lambda>e. snd e = ids ! j) es = [(ids ! (j - 1), ids ! j)])
       \<and> es = zip ids (tl ids)
       \<and> length ids = 1 + (if wants_agent d c then 1 else 0)
             + (case integrations r of None \<Rightarrow> 0 | Some is \<Rightarrow> length is)
             + (case suggested_nodes c of None \<Rightarrow> 0 | Some ns \<Rightarrow> min 3 (length ns))"
proof -
  from generateWorkflowStructure_inv [of d r c]
  obtain b where inv: "chain_inv b" and n: "nodes w = b_nodes b" and cs: "connections w = b_connections b"
    unfolding w_def by blast
  from inv n have ne: "ids \<noteq> []" and hd: "hd ids = ''trigger_1''" and dist: "distinct ids"
    unfolding ids_def chain_inv_def Let_def by simp_all
  from inv n cs have es: "es = zip ids (tl ids)"
    unfolding es_def ids_def chain_inv_def Let_def by (simp add: edges_of_chain)
  from ne hd obtain rest where ids: "ids = ''trigger_1'' # rest" by (cases ids) auto
  with dist have "''trigger_1'' \<notin> set rest" by simp
  then have "filter (\<lambda>i. i = ''trigger_1'') ids = [''trigger_1'']"
    unfolding ids by (auto simp: filter_empty_conv)
  then have "length (filter (\<lambda>i. i = ''trigger_1'') (map n_id (nodes w))) = 1"
    unfolding ids_def by simp
  then have one: "length (filter (\<lambda>n. n_id n = ''trigger_1'') (nodes w)) = 1"
    by (simp add: filter_map comp_def)
  have tg: "\<forall>e \<in> set es. snd e \<in> set ids"
    unfolding es using ne by (auto dest!: set_zip_rightD list.set_sel(2))
  have out: "\<forall>src. length (filter (\<lambda>e. fst e = src) es) \<le> 1"
    unfolding es using out_degree_zip [OF dist] by blast
  have inc: "\<forall>j. 0 < j \<and> j < length ids \<longrightarrow>
             filter (\<lambda>e. snd e = ids ! j) es = [(ids ! (j - 1), ids ! j)]"
    unfolding es using incoming_path [OF dist] by blast
  have len: "length ids = 1 + (if wants_agent d c then 1 else 0)
             + (case integrations r of None \<Rightarrow> 0 | Some is \<Rightarrow> length is)
             + (case suggested_nodes c of None \<Rightarrow> 0 | Some ns \<Rightarrow> min 3 (length ns))"
    unfolding ids_def w_def length_map by (rule generateWorkflowStructure_length)
  from one hd dist tg out inc es len show ?thesis by blast
qed

theorem generateWorkflowStructure_simple_path_witness:
  "map n_id (nodes (generateWorkflowStructure ''Sync orders nightly'' reqs_two context_four)) =
     [''trigger_1'', ''node_2'', ''node_3'', ''node_4'', ''node_5'', ''node_6'']
   \<and> edges_of (connections (generateWorkflowStructure ''Sync orders nightly'' reqs_two context_four)) =
     [(''trigger_1'', ''node_2''), (''node_2'', ''node_3''), (''node_3'', ''node_4''),
      (''node_4'', ''node_5''), (''node_5'', ''node_6'')]
   \<and> filter (\<lambda>e. snd e = ''node_4'')
        (edges_of (connections (generateWorkflowStructure ''Sync orders nightly'' reqs_two context_four)))
      = [(''node_3'', ''node_4'')]"
  using generateWorkflowStructure_simple_path [of "''Sync orders nightly''" reqs_two context_four]
  unfolding ids_example
  by simp

end
